theory Spec2Isabelle
  imports Main
begin

section \<open>The container-ontology client API (client_api.py)\<close>

text \<open>
  The module has two public functions: \<open>matching_containers\<close>, which forwards a class
  expression to an Owlery server through \<open>_mc_helper\<close>, and \<open>strateos_id\<close>, which cuts a
  vendor name off the fragment of an instance URI. Python strings are modelled as
  \<open>string\<close>, raised exceptions as the left summand of a sum type, and the remote server
  as a function from the request to what the client call does.
\<close>

subsection \<open>Exceptions\<close>

text \<open>
  The exceptions that can leave the two functions. \<open>TypeError\<close> is what subscripting
  \<open>None\<close> raises, \<open>KeyError\<close> what subscripting a dict with a missing key raises,
  \<open>AttributeError\<close> what \<open>None.group(1)\<close> raises, \<open>ValueError\<close> is raised by
  \<open>strateos_id\<close> itself with its message. \<open>Propagated\<close> stands for an exception of the
  client library that is not an \<open>ApiException\<close> and is therefore not caught.
\<close>

datatype error =
    TypeError
  | KeyError string
  | AttributeError
  | ValueError string
  | Propagated string

subsection \<open>The reasoning endpoint\<close>

text \<open>
  The arguments of \<open>api_instance.kbs_kb_instances_get\<close>, together with the host the
  client was configured with.
\<close>

record 'p request =
  host :: string
  kb :: string
  object :: string
  prefixes :: 'p
  direct :: bool
  include_deprecated :: bool

text \<open>
  What the call does: it returns a dict (keys are strings), raises
  \<open>owlery_client.ApiException\<close> (carrying its \<open>str\<close> rendering), or raises something else.
\<close>

datatype 'v api_result =
    Returned "string \<rightharpoonup> 'v"
  | RaisedApiException string
  | RaisedOther string

subsection \<open>Logging\<close>

datatype level = DEBUG | ERROR

text \<open>A log record keeps the format string and the argument handed to the logger.\<close>

datatype 'v log_arg =
    NoArgs
  | InstancesArg "(string \<rightharpoonup> 'v) option"
  | ValueArg 'v

type_synonym 'v log_record = "level \<times> string \<times> 'v log_arg"

subsection \<open>\<open>_mc_helper\<close> and \<open>matching_containers\<close>\<close>

text \<open>
  The observable behaviour of one call: the requests issued to the endpoint, the log
  records emitted, and the value returned or the exception raised.
\<close>

record ('p, 'v) outcome =
  sent :: "'p request list"
  log :: "'v log_record list"
  result :: "error + 'v"

text \<open>\<open>instances[key]\<close> where \<open>instances\<close> is \<open>None\<close> or a dict.\<close>

definition getitem :: "(string \<rightharpoonup> 'v) option \<Rightarrow> string \<Rightarrow> error + 'v" where
  "getitem instances key =
     (case instances of
        None \<Rightarrow> Inl TypeError
      | Some d \<Rightarrow> (case d key of None \<Rightarrow> Inl (KeyError key) | Some v \<Rightarrow> Inr v))"

text \<open>
  Lines 88 to 92: \<open>object = container_spec\<close>, extended by \<open>" and " + addl_conditions\<close>
  when \<open>addl_conditions is not None\<close>.
\<close>

definition build_object :: "string \<Rightarrow> string option \<Rightarrow> string" where
  "build_object container_spec addl_conditions =
     (case addl_conditions of
        None \<Rightarrow> container_spec
      | Some c \<Rightarrow> container_spec @ '' and '' @ c)"

text \<open>
  Lines 109 to 111, after the \<open>with\<close> block: two debug records and the return. The
  subscript in the second \<open>logger.debug\<close> call is evaluated before the record is emitted,
  so a failing subscript raises after the first record only.
\<close>

definition finish ::
  "'p request \<Rightarrow> 'v log_record list \<Rightarrow> (string \<rightharpoonup> 'v) option \<Rightarrow> ('p, 'v) outcome" where
  "finish req logged instances =
     (let log1 = logged @ [(DEBUG, ''Instances are %s'', InstancesArg instances)] in
      case getitem instances ''has_instance'' of
        Inl e \<Rightarrow> \<lparr>sent = [req], log = log1, result = Inl e\<rparr>
      | Inr v \<Rightarrow>
          \<lparr>sent = [req], log = log1 @ [(DEBUG, ''Returning %s'', ValueArg v)], result = Inr v\<rparr>)"

text \<open>
  \<open>_mc_helper\<close> (an Isabelle name cannot start with an underscore). \<open>instances\<close> starts
  as \<open>None\<close> and is assigned only when the call returns; an \<open>ApiException\<close> is caught and
  logged at error level, any other exception leaves the function.
\<close>

definition mc_helper ::
  "('p request \<Rightarrow> 'v api_result) \<Rightarrow> string \<Rightarrow> 'p \<Rightarrow> string option \<Rightarrow> string \<Rightarrow> string
     \<Rightarrow> ('p, 'v) outcome" where
  "mc_helper endpoint container_spec prefix_map addl_conditions base_url kb_name =
     (let req = \<lparr>host = base_url, kb = kb_name,
                 object = build_object container_spec addl_conditions,
                 prefixes = prefix_map, direct = False, include_deprecated = True\<rparr>
      in case endpoint req of
           Returned d \<Rightarrow> finish req [] (Some d)
         | RaisedApiException e \<Rightarrow>
             finish req
               [(ERROR,
                 ''Exception when calling DLQueriesApi->kbs_kb_instances_get: '' @ e @ [CHR 0x0A],
                 NoArgs)]
               None
         | RaisedOther e \<Rightarrow> \<lparr>sent = [req], log = [], result = Inl (Propagated e)\<rparr>)"

text \<open>The caller's specification object: \<open>queryString\<close> and \<open>prefixMap\<close> attributes.\<close>

record 'p ClassExpressionSpec =
  queryString :: string
  prefixMap :: 'p

definition default_base_url :: string where
  "default_base_url = ''http://localhost:8080''"

definition default_kb_name :: string where
  "default_kb_name = ''sd2e-container-catalogs''"

definition matching_containers ::
  "('p request \<Rightarrow> 'v api_result) \<Rightarrow> 'p ClassExpressionSpec \<Rightarrow> string \<Rightarrow> string \<Rightarrow> string option
     \<Rightarrow> ('p, 'v) outcome" where
  "matching_containers endpoint container_spec base_url kb_name addl_conditions =
     mc_helper endpoint (queryString container_spec) (prefixMap container_spec)
       addl_conditions base_url kb_name"

subsection \<open>\<open>strateos_id\<close>\<close>

text \<open>\<open>os.path.basename\<close> (POSIX): everything after the last slash.\<close>

definition basename :: "string \<Rightarrow> string" where
  "basename p = rev (takeWhile (\<lambda>c. c \<noteq> CHR ''/'') (rev p))"

text \<open>
  \<open>re.match(PREFIX_SPLITER, s)\<close> for the pattern \<open>.*#(.*)\<close>, giving group 1 or \<open>None\<close>.
  The match is anchored at the start of \<open>s\<close>; a dot matches every character but the
  newline. The first \<open>.*\<close> is greedy: at each character it first tries to take the
  character and go on, and only when the rest cannot match does it stop and require the
  hash there. The group \<open>(.*)\<close> ends the pattern, so it takes the longest run without a
  newline.
\<close>

fun PREFIX_SPLITER :: "string \<Rightarrow> string option" where
  "PREFIX_SPLITER [] = None"
| "PREFIX_SPLITER (c # cs) =
     (if c = CHR 0x0A then None
      else case PREFIX_SPLITER cs of
             Some g \<Rightarrow> Some g
           | None \<Rightarrow>
               if c = CHR ''#'' then Some (takeWhile (\<lambda>d. d \<noteq> CHR 0x0A) cs) else None)"

text \<open>\<open>s.startswith(x)\<close> and \<open>s.removeprefix(x)\<close>.\<close>

definition startswith :: "string \<Rightarrow> string \<Rightarrow> bool" where
  "startswith s x = (take (length x) s = x)"

definition removeprefix :: "string \<Rightarrow> string \<Rightarrow> string" where
  "removeprefix s x = (if startswith s x then drop (length x) s else s)"

text \<open>\<open>s.replace(old, new)\<close> for a single-character \<open>old\<close>.\<close>

definition replace :: "string \<Rightarrow> char \<Rightarrow> string \<Rightarrow> string" where
  "replace s old new = concat (map (\<lambda>c. if c = old then new else [c]) s)"

text \<open>
  \<open>html.escape(s)\<close> with the default \<open>quote=True\<close>: five replacements in this order,
  the ampersand first.
\<close>

definition html_escape :: "string \<Rightarrow> string" where
  "html_escape s =
     replace (replace (replace (replace (replace s
       (CHR ''&'') ''&amp;'')
       (CHR ''<'') ''&lt;'')
       (CHR ''>'') ''&gt;'')
       (CHR 0x22) ''&quot;'')
       (CHR 0x27) ''&#x27;''"

definition vendor_names :: "string list" where
  "vendor_names =
     [''Fisher'', ''ThermoFisher'', ''Eppendorf'', ''Costar'', ''USA Scientific'',
      ''Mesoscale'', ''Chemspeed'', ''E&K Scientific'', ''Sumitomo Bakelite Co.'',
      ''PerkinElmer'', ''Labcyte'', ''Greiner'', ''Corning'', ''Axygen'', ''Tradewinds'']"

definition VENDOR_STRINGS :: "string list" where
  "VENDOR_STRINGS = map (\<lambda>x. replace (html_escape x) (CHR '' '') ''%20'') vendor_names"

text \<open>
  The \<open>for\<close> loop of \<open>strateos_id\<close> over a vendor table, and the \<open>raise\<close> after it.
\<close>

fun vendor_loop :: "string list \<Rightarrow> string \<Rightarrow> string \<Rightarrow> error + string" where
  "vendor_loop [] vendor_and_id uri =
     Inl (ValueError (''Unable to extract a strateos ID from '' @ uri))"
| "vendor_loop (x # xs) vendor_and_id uri =
     (let trimmed = removeprefix vendor_and_id x in
      if trimmed \<noteq> vendor_and_id then Inr trimmed else vendor_loop xs vendor_and_id uri)"

definition strateos_id :: "string \<Rightarrow> error + string" where
  "strateos_id uri =
     (let suffix = basename uri in
      case PREFIX_SPLITER suffix of
        None \<Rightarrow> Inl AttributeError
      | Some vendor_and_id \<Rightarrow> vendor_loop VENDOR_STRINGS vendor_and_id uri)"

section \<open>Properties\<close>

subsection \<open>Auxiliary facts\<close>

lemma sent_finish: "sent (finish req logged instances) = [req]"
  by (simp add: finish_def Let_def split: sum.splits)

lemma sent_mc_helper:
  "sent (mc_helper endpoint cs pm addl base kbn) =
     [\<lparr>host = base, kb = kbn, object = build_object cs addl, prefixes = pm,
       direct = False, include_deprecated = True\<rparr>]"
  by (simp add: mc_helper_def Let_def sent_finish split: api_result.splits)

lemma mc_helper_returned:
  assumes "endpoint \<lparr>host = base, kb = kbn, object = build_object cs addl, prefixes = pm,
       direct = False, include_deprecated = True\<rparr> = Returned d"
  shows "result (mc_helper endpoint cs pm addl base kbn) = getitem (Some d) ''has_instance''"
  using assms by (simp add: mc_helper_def finish_def Let_def split: sum.splits)

lemma mc_helper_api_exception:
  assumes "endpoint \<lparr>host = base, kb = kbn, object = build_object cs addl, prefixes = pm,
       direct = False, include_deprecated = True\<rparr> = RaisedApiException e"
  shows "result (mc_helper endpoint cs pm addl base kbn) = Inl TypeError"
    and "log (mc_helper endpoint cs pm addl base kbn) =
       [(ERROR, ''Exception when calling DLQueriesApi->kbs_kb_instances_get: '' @ e @ [CHR 0x0A], NoArgs),
        (DEBUG, ''Instances are %s'', InstancesArg None)]"
  using assms by (simp_all add: mc_helper_def finish_def getitem_def Let_def)

lemma PREFIX_SPLITER_no_hash: "CHR ''#'' \<notin> set s \<Longrightarrow> PREFIX_SPLITER s = None"
  by (induction s) auto

lemma PREFIX_SPLITER_None_iff:
  "PREFIX_SPLITER s = None \<longleftrightarrow> CHR ''#'' \<notin> set (takeWhile (\<lambda>c. c \<noteq> CHR 0x0A) s)"
  by (induction s) (auto split: option.splits)

lemma PREFIX_SPLITER_last_hash:
  assumes "CHR 0x0A \<notin> set b" and "CHR ''#'' \<notin> set f" and "CHR 0x0A \<notin> set f"
  shows "PREFIX_SPLITER (b @ CHR ''#'' # f) = Some f"
  using assms
proof (induction b)
  case Nil
  then show ?case by (auto simp: PREFIX_SPLITER_no_hash)
next
  case (Cons c b)
  then show ?case by auto
qed

lemma basename_append:
  "CHR ''/'' \<notin> set t \<Longrightarrow> basename (p @ t) = basename p @ t"
proof -
  assume t: "CHR ''/'' \<notin> set t"
  have "takeWhile (\<lambda>c. c \<noteq> CHR ''/'') (rev t @ rev p)
          = rev t @ takeWhile (\<lambda>c. c \<noteq> CHR ''/'') (rev p)"
    by (rule takeWhile_append2) (use t in auto)
  then show ?thesis by (simp add: basename_def)
qed

lemma removeprefix_changes:
  "removeprefix f x \<noteq> f \<longleftrightarrow> startswith f x \<and> x \<noteq> []"
proof -
  have "drop (length x) f \<noteq> f" if "startswith f x" "x \<noteq> []"
  proof
    assume "drop (length x) f = f"
    then have "length f - length x = length f" by (metis length_drop)
    moreover have "length x \<le> length f" using that(1)
      by (metis startswith_def length_take min.cobounded1)
    moreover have "0 < length x" using that(2) by simp
    ultimately show False by arith
  qed
  then show ?thesis by (auto simp: removeprefix_def)
qed

lemma vendor_loop_first_match:
  assumes "\<forall>x\<in>set pre. \<not> startswith f x" and "startswith f v" and "v \<noteq> []"
  shows "vendor_loop (pre @ v # post) f uri = Inr (drop (length v) f)"
  using assms
proof (induction pre)
  case Nil
  then show ?case using removeprefix_changes[of f v] by (simp add: Let_def removeprefix_def)
next
  case (Cons x pre)
  then show ?case using removeprefix_changes[of f x] by (simp add: Let_def)
qed

lemma vendor_loop_no_match:
  assumes "\<forall>x\<in>set tbl. \<not> startswith f x"
  shows "vendor_loop tbl f uri = Inl (ValueError (''Unable to extract a strateos ID from '' @ uri))"
  using assms
proof (induction tbl)
  case Nil
  then show ?case by simp
next
  case (Cons x tbl)
  then show ?case using removeprefix_changes[of f x] by (simp add: Let_def)
qed

lemma VENDOR_STRINGS_eq:
  "VENDOR_STRINGS =
     [''Fisher'', ''ThermoFisher'', ''Eppendorf'', ''Costar'', ''USA%20Scientific'',
      ''Mesoscale'', ''Chemspeed'', ''E&amp;K%20Scientific'', ''Sumitomo%20Bakelite%20Co.'',
      ''PerkinElmer'', ''Labcyte'', ''Greiner'', ''Corning'', ''Axygen'', ''Tradewinds'']"
  by (simp add: VENDOR_STRINGS_def vendor_names_def html_escape_def replace_def)

lemma VENDOR_STRINGS_nonempty: "\<forall>x\<in>set VENDOR_STRINGS. x \<noteq> []"
  by (simp add: VENDOR_STRINGS_eq)

lemma VENDOR_STRINGS_incomparable:
  "\<forall>x\<in>set VENDOR_STRINGS. \<forall>y\<in>set VENDOR_STRINGS. x \<noteq> y \<longrightarrow> \<not> startswith x y"
  by (simp add: VENDOR_STRINGS_eq startswith_def)

lemma VENDOR_STRINGS_chars:
  "\<forall>x\<in>set VENDOR_STRINGS. CHR ''/'' \<notin> set x \<and> CHR ''#'' \<notin> set x \<and> CHR 0x0A \<notin> set x"
  by (simp add: VENDOR_STRINGS_eq)

lemma startswith_append_self: "startswith (v @ cid) v"
  by (simp add: startswith_def)

lemma startswith_append_cases:
  assumes "startswith (v @ cid) x"
  shows "startswith v x \<or> startswith x v"
proof (cases "length x \<le> length v")
  case True
  with assms show ?thesis by (simp add: startswith_def)
next
  case False
  from assms have "take (length x) (v @ cid) = x" by (simp add: startswith_def)
  then have "take (length v) x = take (length v) (take (length x) (v @ cid))" by simp
  also have "\<dots> = v" using False by (simp add: min_def)
  finally show ?thesis by (simp add: startswith_def)
qed

lemma vendor_loop_member:
  assumes "v \<in> set tbl"
    and "\<forall>x\<in>set tbl. x \<noteq> []"
    and "\<forall>x\<in>set tbl. \<forall>y\<in>set tbl. x \<noteq> y \<longrightarrow> \<not> startswith x y"
  shows "vendor_loop tbl (v @ cid) uri = Inr cid"
proof -
  from assms(1) obtain pre post where tbl: "tbl = pre @ v # post" and first: "v \<notin> set pre"
    by (auto dest: split_list_first)
  have "\<not> startswith (v @ cid) x" if "x \<in> set pre" for x
  proof
    assume "startswith (v @ cid) x"
    then have "startswith v x \<or> startswith x v" by (rule startswith_append_cases)
    moreover have xin: "x \<in> set tbl" and xne: "x \<noteq> v" using that first tbl by auto
    have "\<not> startswith x v"
      by (rule assms(3) [rule_format, OF xin assms(1)]) (rule xne)
    moreover have "\<not> startswith v x"
      by (rule assms(3) [rule_format, OF assms(1) xin]) (use xne in simp)
    ultimately show False by simp
  qed
  then have none: "\<forall>x\<in>set pre. \<not> startswith (v @ cid) x" by simp
  have ne: "v \<noteq> []" using assms(1,2) by simp
  have "vendor_loop (pre @ v # post) (v @ cid) uri = Inr (drop (length v) (v @ cid))"
    by (rule vendor_loop_first_match [OF none startswith_append_self ne])
  then show ?thesis by (simp add: tbl)
qed

lemma fragment_of_uri:
  assumes "CHR 0x0A \<notin> set (basename base)"
    and "CHR ''/'' \<notin> set f" and "CHR ''#'' \<notin> set f" and "CHR 0x0A \<notin> set f"
  shows "PREFIX_SPLITER (basename (base @ ''#'' @ f)) = Some f"
proof -
  have "basename (base @ ''#'' @ f) = basename base @ CHR ''#'' # f"
    using assms(2) by (simp add: basename_append)
  then show ?thesis using assms by (simp add: PREFIX_SPLITER_last_hash)
qed

lemma strateos_id_no_match:
  "PREFIX_SPLITER (basename uri) = None \<Longrightarrow> strateos_id uri = Inl AttributeError"
  by (simp add: strateos_id_def)

lemma strateos_id_fragment:
  "PREFIX_SPLITER (basename uri) = Some f \<Longrightarrow> strateos_id uri = vendor_loop VENDOR_STRINGS f uri"
  by (simp add: strateos_id_def)

lemmas strateos_eval =
  strateos_id_def basename_def VENDOR_STRINGS_eq removeprefix_def startswith_def

subsection \<open>Claims about \<open>matching_containers\<close>\<close>

text \<open>
  Claim C1. When the remote call raises \<open>ApiException\<close>, \<open>matching_containers\<close> is meant
  not to raise. The exception is caught and logged, but \<open>instances\<close> is still \<open>None\<close> when
  line 110 subscripts it, so the call ends in a \<open>TypeError\<close>: here for an endpoint that
  answers every request with an \<open>ApiException\<close>. (The lemma \<open>mc_helper_api_exception\<close>
  above shows the same for every endpoint that raises it on the request sent.)
\<close>
theorem matching_containers_api_exception_raises:
  "result (matching_containers
             (\<lambda>req. RaisedApiException ''(503) Reason: Service Unavailable'')
             \<lparr>queryString = ''cont:ClearPlate'', prefixMap = ''{}''\<rparr>
             default_base_url default_kb_name None)
     = (Inl TypeError :: error + string list)"
  by (simp add: matching_containers_def mc_helper_api_exception)

text \<open>
  Claim C2. With \<open>addl_conditions\<close> supplied, the one request issued carries the original
  expression followed by \<open>" and "\<close> and the additional conditions; with \<open>None\<close> it
  carries the original expression unchanged.
\<close>
theorem matching_containers_expression_sent:
  "map object (sent (matching_containers endpoint spec base_url kb_name (Some addl)))
     = [queryString spec @ '' and '' @ addl]
   \<and> map object (sent (matching_containers endpoint spec base_url kb_name None))
     = [queryString spec]"
  by (simp add: matching_containers_def sent_mc_helper build_object_def)

text \<open>
  Claim C3. When the endpoint returns a response whose \<open>has_instance\<close> field holds the
  list \<open>ids\<close>, \<open>matching_containers\<close> returns exactly \<open>ids\<close>: same elements, same order.
\<close>
theorem matching_containers_returns_has_instance:
  fixes ids :: "string list"
  assumes "endpoint \<lparr>host = base_url, kb = kb_name,
                      object = build_object (queryString spec) addl_conditions,
                      prefixes = prefixMap spec, direct = False, include_deprecated = True\<rparr>
             = Returned d"
    and "d ''has_instance'' = Some ids"
  shows "result (matching_containers endpoint spec base_url kb_name addl_conditions) = Inr ids"
  using assms by (simp add: matching_containers_def mc_helper_returned getitem_def)

theorem matching_containers_returns_has_instance_witness:
  "result (matching_containers
             (\<lambda>req. Returned [''has_instance'' \<mapsto>
                [''https://sift.net/container-ontology/strateos-catalog#Corning3632'',
                 ''https://sift.net/container-ontology/strateos-catalog#Costar3590'']])
             \<lparr>queryString = ''cont:ClearPlate'', prefixMap = ''{}''\<rparr>
             default_base_url default_kb_name None)
     = Inr [''https://sift.net/container-ontology/strateos-catalog#Corning3632'',
            ''https://sift.net/container-ontology/strateos-catalog#Costar3590'']"
  by (rule matching_containers_returns_has_instance
        [where d = "[''has_instance'' \<mapsto>
                [''https://sift.net/container-ontology/strateos-catalog#Corning3632'',
                 ''https://sift.net/container-ontology/strateos-catalog#Costar3590'']]"])
     simp_all

text \<open>
  Claim C8. Whatever the caller passes, the one request issued has \<open>direct = False\<close> and
  \<open>include_deprecated = True\<close>.
\<close>
theorem matching_containers_fixed_parameters:
  "map direct (sent (matching_containers endpoint spec base_url kb_name addl_conditions)) = [False]
   \<and> map include_deprecated
        (sent (matching_containers endpoint spec base_url kb_name addl_conditions)) = [True]"
  by (simp add: matching_containers_def sent_mc_helper)

text \<open>
  Claim C9. An empty \<open>addl_conditions\<close> is not \<open>None\<close>: the conjunction text is still
  appended, and the expression sent ends in \<open>" and "\<close>.
\<close>
theorem matching_containers_empty_addl_conditions:
  "map object (sent (matching_containers endpoint spec base_url kb_name (Some '''')))
     = [queryString spec @ '' and '']"
  by (simp add: matching_containers_def sent_mc_helper build_object_def)

subsection \<open>Claims about \<open>strateos_id\<close>\<close>

text \<open>
  Claim C4. When the fragment extracted from the URI is a known vendor string followed by
  a catalog id, \<open>strateos_id\<close> returns the catalog id; in particular for the two URIs of
  the specification. (By \<open>fragment_of_uri\<close>, the fragment of \<open>base#f\<close> is \<open>f\<close> when \<open>f\<close> has
  no slash, hash or newline and the last path segment of \<open>base\<close> has no newline.)
\<close>
theorem strateos_id_strips_vendor:
  "(\<forall>v\<in>set VENDOR_STRINGS. \<forall>uri cid.
       PREFIX_SPLITER (basename uri) = Some (v @ cid) \<longrightarrow> strateos_id uri = Inr cid)
   \<and> strateos_id ''https://example.org/cat#FisherABC123'' = Inr ''ABC123''
   \<and> strateos_id ''https://example.org/cat#Corning96WellPlate'' = Inr ''96WellPlate''"
proof (intro conjI ballI allI impI)
  fix v uri cid
  assume "v \<in> set VENDOR_STRINGS" and "PREFIX_SPLITER (basename uri) = Some (v @ cid)"
  then show "strateos_id uri = Inr cid"
    using VENDOR_STRINGS_nonempty VENDOR_STRINGS_incomparable
    by (simp add: strateos_id_fragment vendor_loop_member)
next
  show "strateos_id ''https://example.org/cat#FisherABC123'' = Inr ''ABC123''"
    by (simp add: strateos_eval)
next
  show "strateos_id ''https://example.org/cat#Corning96WellPlate'' = Inr ''96WellPlate''"
    by (simp add: strateos_eval)
qed

theorem strateos_id_strips_vendor_witness:
  "''ThermoFisher'' \<in> set VENDOR_STRINGS
   \<and> PREFIX_SPLITER (basename ''https://example.org/cat#ThermoFisherAB-1234'')
       = Some (''ThermoFisher'' @ ''AB-1234'')
   \<and> strateos_id ''https://example.org/cat#ThermoFisherAB-1234'' = Inr ''AB-1234''"
proof -
  have v: "''ThermoFisher'' \<in> set VENDOR_STRINGS" by (simp add: VENDOR_STRINGS_eq)
  have f: "PREFIX_SPLITER (basename ''https://example.org/cat#ThermoFisherAB-1234'')
             = Some (''ThermoFisher'' @ ''AB-1234'')"
    by (simp add: basename_def)
  note r = strateos_id_strips_vendor [THEN conjunct1, rule_format, OF v f]
  show ?thesis by (intro conjI v f r)
qed

text \<open>
  Claim C5. A URI whose last path segment does not match the pattern is meant to fail with
  the extraction error, the \<open>ValueError\<close> of line 72. Instead \<open>re.match\<close> gives \<open>None\<close>,
  and \<open>.group(1)\<close> on it raises \<open>AttributeError\<close>: here for a URI without a hash. (The
  lemmas \<open>strateos_id_no_match\<close> and \<open>PREFIX_SPLITER_None_iff\<close> show this for every
  suffix whose first line has no hash.)
\<close>
theorem strateos_id_no_hash_attribute_error:
  "strateos_id ''https://example.org/cat'' = Inl AttributeError"
  by (simp add: strateos_id_def basename_def)

text \<open>
  Claim C6. When a fragment is extracted and no vendor string is a prefix of it,
  \<open>strateos_id\<close> raises the \<open>ValueError\<close> with its message; it never returns a value.
\<close>
theorem strateos_id_unknown_vendor:
  assumes "PREFIX_SPLITER (basename uri) = Some f"
    and "\<forall>x\<in>set VENDOR_STRINGS. \<not> startswith f x"
  shows "strateos_id uri = Inl (ValueError (''Unable to extract a strateos ID from '' @ uri))"
  using assms by (simp add: strateos_id_fragment vendor_loop_no_match)

theorem strateos_id_unknown_vendor_witness:
  "strateos_id ''https://example.org/cat#UnknownVendorXYZ''
     = Inl (ValueError
         (''Unable to extract a strateos ID from '' @ ''https://example.org/cat#UnknownVendorXYZ''))"
proof (rule strateos_id_unknown_vendor)
  show "PREFIX_SPLITER (basename ''https://example.org/cat#UnknownVendorXYZ'')
          = Some ''UnknownVendorXYZ''"
    by (simp add: basename_def)
  show "\<forall>x\<in>set VENDOR_STRINGS. \<not> startswith ''UnknownVendorXYZ'' x"
    by (simp add: VENDOR_STRINGS_eq startswith_def)
qed

text \<open>
  Claim C7. The vendor table is the declared list, escaped, in the declared order, and
  \<open>strateos_id\<close> returns the fragment without the first table entry that is a prefix of
  it: if no entry before \<open>v\<close> is a prefix of the fragment and \<open>v\<close> is, the result is the
  fragment with \<open>v\<close> dropped. (\<open>vendor_loop_first_match\<close> shows the same for the loop over
  any table.)
\<close>
theorem strateos_id_first_vendor_wins:
  assumes "PREFIX_SPLITER (basename uri) = Some f"
    and "VENDOR_STRINGS = pre @ v # post"
    and "\<forall>x\<in>set pre. \<not> startswith f x"
    and "startswith f v"
  shows "strateos_id uri = Inr (drop (length v) f)
     \<and> VENDOR_STRINGS =
         [''Fisher'', ''ThermoFisher'', ''Eppendorf'', ''Costar'', ''USA%20Scientific'',
          ''Mesoscale'', ''Chemspeed'', ''E&amp;K%20Scientific'', ''Sumitomo%20Bakelite%20Co.'',
          ''PerkinElmer'', ''Labcyte'', ''Greiner'', ''Corning'', ''Axygen'', ''Tradewinds'']"
proof
  have "v \<in> set VENDOR_STRINGS" by (simp add: assms(2))
  then have "v \<noteq> []" using VENDOR_STRINGS_nonempty by blast
  with assms(3,4) have "vendor_loop (pre @ v # post) f uri = Inr (drop (length v) f)"
    by (rule vendor_loop_first_match)
  then show "strateos_id uri = Inr (drop (length v) f)"
    using assms(1,2) by (simp add: strateos_id_fragment)
qed (rule VENDOR_STRINGS_eq)

theorem strateos_id_first_vendor_wins_witness:
  "strateos_id ''https://example.org/cat#Costar3590'' = Inr ''3590''"
proof -
  have f: "PREFIX_SPLITER (basename ''https://example.org/cat#Costar3590'') = Some ''Costar3590''"
    by (simp add: basename_def)
  have t: "VENDOR_STRINGS = [''Fisher'', ''ThermoFisher'', ''Eppendorf''] @ ''Costar'' #
      [''USA%20Scientific'', ''Mesoscale'', ''Chemspeed'', ''E&amp;K%20Scientific'',
       ''Sumitomo%20Bakelite%20Co.'', ''PerkinElmer'', ''Labcyte'', ''Greiner'', ''Corning'',
       ''Axygen'', ''Tradewinds'']"
    by (simp add: VENDOR_STRINGS_eq)
  have p: "\<forall>x\<in>set [''Fisher'', ''ThermoFisher'', ''Eppendorf'']. \<not> startswith ''Costar3590'' x"
    by (simp add: startswith_def)
  have s: "startswith ''Costar3590'' ''Costar''"
    by (simp add: startswith_def)
  from strateos_id_first_vendor_wins [OF f t p s] show ?thesis by simp
qed

text \<open>
  Claim C10. When the fragment is exactly a vendor string, \<open>strateos_id\<close> returns the empty
  string instead of raising.
\<close>
theorem strateos_id_vendor_only:
  assumes "PREFIX_SPLITER (basename uri) = Some v" and "v \<in> set VENDOR_STRINGS"
  shows "strateos_id uri = Inr ''''"
proof -
  have "vendor_loop VENDOR_STRINGS (v @ []) uri = Inr []"
    using assms(2) VENDOR_STRINGS_nonempty VENDOR_STRINGS_incomparable
    by (rule vendor_loop_member)
  then show ?thesis using assms(1) by (simp add: strateos_id_fragment)
qed

theorem strateos_id_vendor_only_witness:
  "strateos_id ''https://example.org/cat#Fisher'' = Inr ''''"
proof (rule strateos_id_vendor_only)
  show "PREFIX_SPLITER (basename ''https://example.org/cat#Fisher'') = Some ''Fisher''"
    by (simp add: basename_def)
  show "''Fisher'' \<in> set VENDOR_STRINGS"
    by (simp add: VENDOR_STRINGS_eq)
qed

end
